theory Spec2Isabelle
  imports Main "HOL-Library.Word"
begin

section \<open>Data model\<close>

text \<open>
  A Python \<open>bytes\<close> object is a list of 8-bit words. A Python \<open>str\<close> is a list of
  Unicode code points; a code point is a natural number (below \<open>0x110000\<close> in every
  real \<open>str\<close>). An address is the \<open>(ip, port)\<close> tuple of the socket API: the
  host as a \<open>str\<close> and the port as a Python integer.
\<close>

type_synonym byte = "8 word"
type_synonym bytes = "byte list"
type_synonym pystr = "nat list"
type_synonym address = "pystr \<times> int"

text \<open>The exceptions the modelled code can raise.\<close>

datatype error =
    StructError
  | ValueError
  | UnicodeDecodeError
  | UnicodeEncodeError
  | OSError

text \<open>
  A call that may raise returns \<open>Inl\<close> of the exception or \<open>Inr\<close> of its value;
  \<open>and_then\<close> runs the rest of the function on the value and passes an exception on.
\<close>

definition and_then :: "error + 'a \<Rightarrow> ('a \<Rightarrow> error + 'b) \<Rightarrow> error + 'b" where
  "and_then r f = (case r of Inl e \<Rightarrow> Inl e | Inr v \<Rightarrow> f v)"

text \<open>\<open>utils.py\<close>, the size constants.\<close>

definition MAX_KEY_SIZE :: nat where
  "MAX_KEY_SIZE = 40"

definition MAX_VALUE_SIZE :: nat where
  "MAX_VALUE_SIZE = 160"

definition MESSAGE_TYPE_SIZE :: nat where
  "MESSAGE_TYPE_SIZE = 2"

definition CLIREQ_MESSAGE_SIZE :: nat where
  "CLIREQ_MESSAGE_SIZE = MESSAGE_TYPE_SIZE + MAX_KEY_SIZE + 1"

definition RESPONSE_DATA_SIZE :: nat where
  "RESPONSE_DATA_SIZE = MAX_KEY_SIZE + 1 + MAX_VALUE_SIZE + 1"

definition RESPONSE_MESSAGE_SIZE :: nat where
  "RESPONSE_MESSAGE_SIZE = MESSAGE_TYPE_SIZE + RESPONSE_DATA_SIZE"

definition QUERY_HEADER_SIZE :: nat where
  "QUERY_HEADER_SIZE = MESSAGE_TYPE_SIZE + 2 + 4 + 2 + 4"

definition QUERY_MESSAGE_SIZE :: nat where
  "QUERY_MESSAGE_SIZE = QUERY_HEADER_SIZE + MAX_KEY_SIZE + 1"

definition MAX_SERVER_MESSAGE_SIZE :: nat where
  "MAX_SERVER_MESSAGE_SIZE = max CLIREQ_MESSAGE_SIZE QUERY_MESSAGE_SIZE"

text \<open>\<open>class MessageType(enum.Enum)\<close> with the values 1, 2, 3.\<close>

datatype MessageType = CLIREQ | QUERY | RESPONSE

definition MessageType_value :: "MessageType \<Rightarrow> int" where
  "MessageType_value t = (case t of CLIREQ \<Rightarrow> 1 | QUERY \<Rightarrow> 2 | RESPONSE \<Rightarrow> 3)"

text \<open>The enum constructor \<open>MessageType(n)\<close>: a \<open>ValueError\<close> for any other number.\<close>

definition MessageType_of :: "int \<Rightarrow> error + MessageType" where
  "MessageType_of n =
     (if n = 1 then Inr CLIREQ
      else if n = 2 then Inr QUERY
      else if n = 3 then Inr RESPONSE
      else Inl ValueError)"

text \<open>The named tuples \<open>QueryContent\<close> and \<open>Query\<close>, and the class \<open>QueryCreator\<close>.\<close>

record QueryContent =
  key :: pystr
  address :: address
  sequence :: int

record Query =
  content :: QueryContent
  ttl :: int

record QueryCreator =
  next_sequence :: int
  initial_ttl :: int

text \<open>\<open>QueryCreator()\<close> with the default arguments of \<open>__init__\<close>.\<close>

definition QueryCreator_init :: QueryCreator where
  "QueryCreator_init = \<lparr>next_sequence = 0, initial_ttl = 3\<rparr>"

text \<open>
  \<open>new_query\<close> returns the query and mutates the creator; the model returns the
  query together with the updated creator.
\<close>

definition new_query :: "QueryCreator \<Rightarrow> pystr \<Rightarrow> address \<Rightarrow> Query \<times> QueryCreator" where
  "new_query self k a =
     (\<lparr>content = \<lparr>key = k, address = a, sequence = next_sequence self\<rparr>,
       ttl = initial_ttl self\<rparr>,
      self\<lparr>next_sequence := next_sequence self + 1\<rparr>)"

text \<open>What \<open>logging\<close> is asked to write, one constructor for each call in the source.\<close>

datatype log_event =
    Invalid_message_type MessageType MessageType
  | Received_clireq Query
  | Received_query Query
  | Server_received_response address
  | Query_already_seen Query
  | Forwarding_query address
  | Sending_response address

section \<open>The library functions the codec calls\<close>

subsection \<open>\<open>struct\<close>: big-endian unsigned fields\<close>

text \<open>
  \<open>struct.pack\<close> of an \<open>H\<close> (16 bits) or \<open>I\<close> (32 bits) field in network order
  raises \<open>struct.error\<close> when the number is out of the field's range.
\<close>

definition pack_H :: "int \<Rightarrow> error + bytes" where
  "pack_H v =
     (if 0 \<le> v \<and> v < 65536
      then Inr [word_of_int (v div 256), word_of_int (v mod 256)]
      else Inl StructError)"

definition pack_I :: "int \<Rightarrow> error + bytes" where
  "pack_I v =
     (if 0 \<le> v \<and> v < 4294967296
      then Inr [word_of_int (v div 16777216), word_of_int (v div 65536 mod 256),
                word_of_int (v div 256 mod 256), word_of_int (v mod 256)]
      else Inl StructError)"

definition be_H :: "byte \<Rightarrow> byte \<Rightarrow> int" where
  "be_H a b = uint a * 256 + uint b"

definition be_I :: "byte \<Rightarrow> byte \<Rightarrow> byte \<Rightarrow> byte \<Rightarrow> int" where
  "be_I a b c d = uint a * 16777216 + uint b * 65536 + uint c * 256 + uint d"

text \<open>\<open>TYPE_FORMATTER = struct.Struct('!H')\<close>; unpacking needs exactly two bytes.\<close>

definition pack_type :: "int \<Rightarrow> error + bytes" where
  "pack_type v = pack_H v"

definition unpack_type :: "bytes \<Rightarrow> error + int" where
  "unpack_type buf = (case buf of [a, b] \<Rightarrow> Inr (be_H a b) | _ \<Rightarrow> Inl StructError)"

text \<open>
  \<open>QUERY_FORMATTER = struct.Struct('!HH4sHI')\<close>: type, ttl, four address bytes, port,
  sequence; 14 bytes with no padding. The \<open>4s\<close> field cuts or zero-pads its argument to
  four bytes.
\<close>

definition pack_4s :: "bytes \<Rightarrow> bytes" where
  "pack_4s s = take 4 s @ replicate (4 - length s) 0"

definition pack_query_header :: "int \<Rightarrow> int \<Rightarrow> bytes \<Rightarrow> int \<Rightarrow> int \<Rightarrow> error + bytes" where
  "pack_query_header message_type ttl_v packed_ip port sequence_v =
     and_then (pack_H message_type) (\<lambda>t.
     and_then (pack_H ttl_v) (\<lambda>l.
     and_then (pack_H port) (\<lambda>p.
     and_then (pack_I sequence_v) (\<lambda>s.
     Inr (t @ l @ pack_4s packed_ip @ p @ s)))))"

definition unpack_query_header :: "bytes \<Rightarrow> error + (int \<times> int \<times> bytes \<times> int \<times> int)" where
  "unpack_query_header buf =
     (case buf of
        [t1, t2, l1, l2, i1, i2, i3, i4, p1, p2, s1, s2, s3, s4] \<Rightarrow>
          Inr (be_H t1 t2, be_H l1 l2, [i1, i2, i3, i4], be_H p1 p2, be_I s1 s2 s3 s4)
      | _ \<Rightarrow> Inl StructError)"

subsection \<open>\<open>str.encode()\<close> and \<open>bytes.decode()\<close>: strict UTF-8\<close>

text \<open>
  Encoding raises \<open>UnicodeEncodeError\<close> on a surrogate code point (\<open>0xD800\<close> to
  \<open>0xDFFF\<close>, which a Python \<open>str\<close> may hold). A number from \<open>0x110000\<close> on is not a
  code point and no \<open>str\<close> holds one; the model rejects it the same way.
\<close>

definition utf8_encode_char :: "nat \<Rightarrow> error + bytes" where
  "utf8_encode_char c =
     (if c < 0x80 then Inr [of_nat c]
      else if c < 0x800 then Inr [of_nat (0xC0 + c div 64), of_nat (0x80 + c mod 64)]
      else if c < 0x10000 then
        (if 0xD800 \<le> c \<and> c < 0xE000 then Inl UnicodeEncodeError
         else Inr [of_nat (0xE0 + c div 4096), of_nat (0x80 + c div 64 mod 64),
                   of_nat (0x80 + c mod 64)])
      else if c < 0x110000 then
        Inr [of_nat (0xF0 + c div 262144), of_nat (0x80 + c div 4096 mod 64),
             of_nat (0x80 + c div 64 mod 64), of_nat (0x80 + c mod 64)]
      else Inl UnicodeEncodeError)"

fun encode :: "pystr \<Rightarrow> error + bytes" where
  "encode [] = Inr []"
| "encode (c # cs) =
     and_then (utf8_encode_char c) (\<lambda>b.
     and_then (encode cs) (\<lambda>bs. Inr (b @ bs)))"

definition is_cont :: "byte \<Rightarrow> bool" where
  "is_cont b \<longleftrightarrow> 0x80 \<le> unat b \<and> unat b < 0xC0"

definition cont_bits :: "byte \<Rightarrow> nat" where
  "cont_bits b = unat b - 0x80"

text \<open>
  The first code point of a byte string and the number of bytes it takes, or \<open>None\<close>
  where the strict decoder raises: a stray continuation byte, a cut or malformed
  sequence, an overlong form, a surrogate, a value beyond \<open>0x10FFFF\<close>.
\<close>

definition utf8_first :: "bytes \<Rightarrow> (nat \<times> nat) option" where
  "utf8_first buf =
     (case buf of
        [] \<Rightarrow> None
      | b # bs \<Rightarrow>
         (let n = unat b in
          if n < 0x80 then Some (n, 1)
          else if n < 0xC0 then None
          else if n < 0xE0 then
            (case bs of
               b1 # _ \<Rightarrow>
                 (let c = (n - 0xC0) * 64 + cont_bits b1 in
                  if is_cont b1 \<and> 0x80 \<le> c then Some (c, 2) else None)
             | _ \<Rightarrow> None)
          else if n < 0xF0 then
            (case bs of
               b1 # b2 # _ \<Rightarrow>
                 (let c = (n - 0xE0) * 4096 + cont_bits b1 * 64 + cont_bits b2 in
                  if is_cont b1 \<and> is_cont b2 \<and> 0x800 \<le> c \<and> \<not> (0xD800 \<le> c \<and> c < 0xE000)
                  then Some (c, 3) else None)
             | _ \<Rightarrow> None)
          else if n < 0xF8 then
            (case bs of
               b1 # b2 # b3 # _ \<Rightarrow>
                 (let c = (n - 0xF0) * 262144 + cont_bits b1 * 4096 + cont_bits b2 * 64
                          + cont_bits b3 in
                  if is_cont b1 \<and> is_cont b2 \<and> is_cont b3 \<and> 0x10000 \<le> c \<and> c < 0x110000
                  then Some (c, 4) else None)
             | _ \<Rightarrow> None)
          else None))"

fun decode :: "bytes \<Rightarrow> error + pystr" where
  "decode [] = Inr []"
| "decode (b # bs) =
     (case utf8_first (b # bs) of
        None \<Rightarrow> Inl UnicodeDecodeError
      | Some (c, n) \<Rightarrow>
          and_then (decode (drop (n - 1) bs)) (\<lambda>s. Inr (c # s)))"

text \<open>\<open>s.rstrip('\0')\<close>: every trailing NUL is removed.\<close>

definition rstrip_nul :: "pystr \<Rightarrow> pystr" where
  "rstrip_nul s = rev (dropWhile (\<lambda>c. c = 0) (rev s))"

subsection \<open>\<open>socket.inet_ntoa\<close> and \<open>socket.inet_aton\<close>\<close>

text \<open>\<open>inet_ntoa\<close> writes four bytes in dotted decimal notation.\<close>

definition str_of_octet :: "nat \<Rightarrow> pystr" where
  "str_of_octet n =
     (if n < 10 then [48 + n]
      else if n < 100 then [48 + n div 10, 48 + n mod 10]
      else [48 + n div 100, 48 + n div 10 mod 10, 48 + n mod 10])"

definition inet_ntoa :: "bytes \<Rightarrow> error + pystr" where
  "inet_ntoa packed_ip =
     (case packed_ip of
        [a, b, c, d] \<Rightarrow>
          Inr (str_of_octet (unat a) @ [46] @ str_of_octet (unat b) @ [46]
               @ str_of_octet (unat c) @ [46] @ str_of_octet (unat d))
      | _ \<Rightarrow> Inl OSError)"

text \<open>
  \<open>socket.inet_aton\<close> converts its argument to a C string and hands it to the
  \<open>inet_aton\<close> of the C library. The conversion raises \<open>UnicodeEncodeError\<close> on a
  lone surrogate and \<open>ValueError\<close> on a NUL character. The model of the library
  function follows the GNU C library: one to four numbers separated by dots, each read
  by \<open>strtoul\<close> with base 0 (decimal, octal after a leading \<open>0\<close>, hexadecimal after
  \<open>0x\<close>); every number before a dot is one byte, and the last number fills the bytes
  that are left; white space, and anything after it, may follow. Other C libraries
  differ in what may follow the address.

  \<open>digit_value\<close> is the digit a character stands for in \<open>strtoul\<close>, and
  \<open>strtoul_digits\<close> reads digits below the base for as long as there are any.
\<close>

definition digit_value :: "nat \<Rightarrow> nat option" where
  "digit_value c =
     (if 48 \<le> c \<and> c \<le> 57 then Some (c - 48)
      else if 97 \<le> c \<and> c \<le> 122 then Some (c - 87)
      else if 65 \<le> c \<and> c \<le> 90 then Some (c - 55)
      else None)"

fun strtoul_digits :: "nat \<Rightarrow> nat \<Rightarrow> pystr \<Rightarrow> nat \<times> pystr" where
  "strtoul_digits base acc [] = (acc, [])"
| "strtoul_digits base acc (c # cs) =
     (case digit_value c of
        None \<Rightarrow> (acc, c # cs)
      | Some v \<Rightarrow> if v < base then strtoul_digits base (acc * base + v) cs else (acc, c # cs))"

text \<open>
  \<open>strtoul(cp, &endp, 0)\<close> on a text that starts with a digit: the value and the text
  left. A \<open>0x\<close> that no hexadecimal digit follows is the number 0 followed by \<open>x\<close>.
\<close>

definition hex_prefix :: "pystr \<Rightarrow> bool" where
  "hex_prefix cp =
     (case cp of
        c0 # x # h # rest \<Rightarrow>
          c0 = 48 \<and> (x = 120 \<or> x = 88)
          \<and> (case digit_value h of None \<Rightarrow> False | Some v \<Rightarrow> v < 16)
      | _ \<Rightarrow> False)"

definition strtoul :: "pystr \<Rightarrow> nat \<times> pystr" where
  "strtoul cp =
     (if hex_prefix cp then strtoul_digits 16 0 (drop 2 cp)
      else if take 1 cp = [48] then strtoul_digits 8 0 cp
      else strtoul_digits 10 0 cp)"

text \<open>
  One round of the loop of the library function: a number has to start with a digit and
  to fit 32 bits.
\<close>

definition inet_aton_number :: "pystr \<Rightarrow> (nat \<times> pystr) option" where
  "inet_aton_number cp =
     (case cp of
        [] \<Rightarrow> None
      | c # cs \<Rightarrow>
          if 48 \<le> c \<and> c \<le> 57 then
            (let (val, endp) = strtoul cp in
             if 0xffffffff < val then None else Some (val, endp))
          else None)"

text \<open>
  The loop: the numbers before the dots, the last number and the text after it.
  \<open>room\<close> is how many more dots may come; a number before a dot is at most 255.
\<close>

fun inet_aton_parts :: "nat \<Rightarrow> pystr \<Rightarrow> (nat list \<times> nat \<times> pystr) option" where
  "inet_aton_parts 0 cp =
     (case inet_aton_number cp of
        None \<Rightarrow> None
      | Some (val, endp) \<Rightarrow>
          (case endp of
             [] \<Rightarrow> Some ([], val, endp)
           | c # cp' \<Rightarrow> if c = 46 then None else Some ([], val, endp)))"
| "inet_aton_parts (Suc room) cp =
     (case inet_aton_number cp of
        None \<Rightarrow> None
      | Some (val, endp) \<Rightarrow>
          (case endp of
             [] \<Rightarrow> Some ([], val, endp)
           | c # cp' \<Rightarrow>
               if c = 46 then
                 (if 0xff < val then None
                  else (case inet_aton_parts room cp' of
                          None \<Rightarrow> None
                        | Some (parts, last_val, rest) \<Rightarrow> Some (val # parts, last_val, rest)))
               else Some ([], val, endp)))"

text \<open>\<open>isspace\<close> in the C locale.\<close>

definition is_space :: "nat \<Rightarrow> bool" where
  "is_space c \<longleftrightarrow> c = 32 \<or> (9 \<le> c \<and> c \<le> 13)"

text \<open>
  The last number has to fit the bytes left; the address is the bytes before the dots,
  the rest zero, or-ed with the last number in network order.
\<close>

definition inet_aton :: "pystr \<Rightarrow> error + bytes" where
  "inet_aton ip =
     and_then (encode ip) (\<lambda>encoded.
     if 0 \<in> set ip then Inl ValueError
     else
       (case inet_aton_parts 3 ip of
          None \<Rightarrow> Inl OSError
        | Some (parts, val, rest) \<Rightarrow>
            if (case rest of [] \<Rightarrow> False | c # cs \<Rightarrow> \<not> is_space c) then Inl OSError
            else if 256 ^ (4 - length parts) \<le> val then Inl OSError
            else Inr (map2 or
                        (take 4 (map of_nat parts @ [0, 0, 0, 0]))
                        [of_nat (val div 16777216), of_nat (val div 65536 mod 256),
                         of_nat (val div 256 mod 256), of_nat (val mod 256)])))"

section \<open>The wire codec of \<open>utils.py\<close>\<close>

definition extract_message_type :: "bytes \<Rightarrow> error + MessageType" where
  "extract_message_type packed_message =
     and_then (unpack_type (take MESSAGE_TYPE_SIZE packed_message)) (\<lambda>message_type.
     MessageType_of message_type)"

definition pack_clireq :: "pystr \<Rightarrow> error + bytes" where
  "pack_clireq k =
     (let data = take MAX_KEY_SIZE k @ [0] in
      and_then (pack_type (MessageType_value CLIREQ)) (\<lambda>t.
      and_then (encode data) (\<lambda>d. Inr (t @ d))))"

text \<open>
  The unpacking functions log a type mismatch and go on; the model returns what they
  logged next to their result.
\<close>

definition unpack_clireq :: "bytes \<Rightarrow> error + (pystr \<times> log_event list)" where
  "unpack_clireq clireq =
     and_then (extract_message_type clireq) (\<lambda>message_type.
     let logs = (if message_type \<noteq> CLIREQ then [Invalid_message_type CLIREQ message_type]
                 else []) in
     and_then (decode (drop MESSAGE_TYPE_SIZE clireq)) (\<lambda>s.
     Inr (rstrip_nul s, logs)))"

definition pack_response :: "pystr \<Rightarrow> pystr \<Rightarrow> error + bytes" where
  "pack_response k v =
     (let response = take MAX_KEY_SIZE k @ [9] @ take MAX_VALUE_SIZE v @ [0] in
      and_then (pack_type (MessageType_value RESPONSE)) (\<lambda>t.
      and_then (encode response) (\<lambda>d. Inr (t @ d))))"

definition unpack_response :: "bytes \<Rightarrow> error + (pystr \<times> log_event list)" where
  "unpack_response response =
     and_then (extract_message_type response) (\<lambda>message_type.
     let logs = (if message_type \<noteq> RESPONSE
                 then [Invalid_message_type RESPONSE message_type] else []) in
     and_then (decode (drop MESSAGE_TYPE_SIZE response)) (\<lambda>s.
     Inr (rstrip_nul s, logs)))"

definition pack_query :: "Query \<Rightarrow> error + bytes" where
  "pack_query query =
     (let data = take MAX_KEY_SIZE (key (content query)) @ [0];
          (ip, port) = address (content query) in
      and_then (inet_aton ip) (\<lambda>packed_ip.
      and_then (pack_query_header (MessageType_value QUERY) (ttl query) packed_ip port
                  (sequence (content query))) (\<lambda>h.
      and_then (encode data) (\<lambda>d. Inr (h @ d)))))"

definition unpack_query :: "bytes \<Rightarrow> error + (Query \<times> log_event list)" where
  "unpack_query query =
     and_then (unpack_query_header (take QUERY_HEADER_SIZE query))
       (\<lambda>(message_type, ttl_v, packed_ip, port, sequence_v).
     and_then (decode (drop QUERY_HEADER_SIZE query)) (\<lambda>s.
     and_then (inet_ntoa packed_ip) (\<lambda>ip.
     and_then (MessageType_of message_type) (\<lambda>t.
     let logs = (if t \<noteq> QUERY then [Invalid_message_type QUERY t] else []) in
     Inr (\<lparr>content = \<lparr>key = rstrip_nul s, address = (ip, port), sequence = sequence_v\<rparr>,
           ttl = ttl_v - 1\<rparr>, logs)))))"

section \<open>The servent of \<open>servent.py\<close>\<close>

text \<open>
  What \<open>main\<close> reads and never changes: the database parsed from the dictionary file
  and the neighbour addresses of the command line. What it changes: the query creator
  and the set \<open>queries_seen\<close>.
\<close>

record servent_config =
  database :: "pystr \<rightharpoonup> pystr"
  neighbor_addresses :: "address list"

record servent_state =
  query_creator :: QueryCreator
  queries_seen :: "QueryContent set"

definition servent_init :: servent_state where
  "servent_init = \<lparr>query_creator = QueryCreator_init, queries_seen = {}\<rparr>"

text \<open>
  What one iteration of the loop does to the outside: a line handed to \<open>logging\<close>, or a
  datagram handed to \<open>sendto\<close> of a fresh socket. The network takes every datagram:
  \<open>sendto\<close> is modelled as never raising.
\<close>

datatype effect = Log log_event | SendTo bytes address

text \<open>Lines 59 to 65 of \<open>servent.py\<close>: the query is packed once and sent to the neighbours.\<close>

definition forward_query :: "servent_config \<Rightarrow> Query \<Rightarrow> address \<Rightarrow> error + effect list" where
  "forward_query cfg query message_origin =
     (if 0 < ttl query \<and> neighbor_addresses cfg \<noteq> [] then
        and_then (pack_query query) (\<lambda>packed_query.
        Inr (concat (map (\<lambda>neighbor_address.
               if neighbor_address \<noteq> message_origin
               then [Log (Forwarding_query neighbor_address),
                     SendTo packed_query neighbor_address]
               else []) (neighbor_addresses cfg))))
      else Inr [])"

text \<open>Lines 67 to 72: the answer from the local database.\<close>

definition answer_query :: "servent_config \<Rightarrow> Query \<Rightarrow> error + effect list" where
  "answer_query cfg query =
     (case database cfg (key (content query)) of
        None \<Rightarrow> Inr []
      | Some v \<Rightarrow>
          and_then (pack_response (key (content query)) v) (\<lambda>response.
          Inr [Log (Sending_response (address (content query))),
               SendTo response (address (content query))]))"

text \<open>Lines 54 to 72: what the loop does with a query once it has one.\<close>

definition process_query ::
  "servent_config \<Rightarrow> servent_state \<Rightarrow> Query \<Rightarrow> address \<Rightarrow> error + (servent_state \<times> effect list)"
where
  "process_query cfg st query message_origin =
     (if content query \<in> queries_seen st then Inr (st, [Log (Query_already_seen query)])
      else
        (let st' = st\<lparr>queries_seen := insert (content query) (queries_seen st)\<rparr> in
         and_then (forward_query cfg query message_origin) (\<lambda>forwarded.
         and_then (answer_query cfg query) (\<lambda>answered.
         Inr (st', forwarded @ answered)))))"

text \<open>
  One iteration of \<open>while True\<close> (lines 38 to 72) on the datagram that \<open>recvfrom\<close>
  delivers: at most \<open>MAX_SERVER_MESSAGE_SIZE\<close> bytes of it, and the address of its
  sender. An exception leaves the loop, since \<open>main\<close> catches none; the model then
  keeps the exception only.
\<close>

definition servent_step ::
  "servent_config \<Rightarrow> servent_state \<Rightarrow> bytes \<times> address \<Rightarrow> error + (servent_state \<times> effect list)"
where
  "servent_step cfg st received =
     (let message_data = take MAX_SERVER_MESSAGE_SIZE (fst received);
          message_origin = snd received in
      and_then (extract_message_type message_data) (\<lambda>message_type.
      case message_type of
        CLIREQ \<Rightarrow>
          and_then (unpack_clireq message_data) (\<lambda>(k, logged).
          let (query, creator) = new_query (query_creator st) k message_origin in
          and_then (process_query cfg (st\<lparr>query_creator := creator\<rparr>) query message_origin)
            (\<lambda>(st', effects).
          Inr (st', map Log logged @ Log (Received_clireq query) # effects)))
      | QUERY \<Rightarrow>
          and_then (unpack_query message_data) (\<lambda>(query, logged).
          and_then (process_query cfg st query message_origin) (\<lambda>(st', effects).
          Inr (st', map Log logged @ Log (Received_query query) # effects)))
      | RESPONSE \<Rightarrow> Inr (st, [Log (Server_received_response message_origin)])))"

text \<open>The loop on the datagrams that arrive, in order; it stops at the first exception.\<close>

fun servent_run ::
  "servent_config \<Rightarrow> servent_state \<Rightarrow> (bytes \<times> address) list
     \<Rightarrow> error + (servent_state \<times> effect list)"
where
  "servent_run cfg st [] = Inr (st, [])"
| "servent_run cfg st (received # rest) =
     and_then (servent_step cfg st received) (\<lambda>(st', effects).
     and_then (servent_run cfg st' rest) (\<lambda>(st'', effects').
     Inr (st'', effects @ effects')))"

text \<open>The datagrams among the effects, in the order they were sent.\<close>

fun sent :: "effect list \<Rightarrow> (bytes \<times> address) list" where
  "sent [] = []"
| "sent (Log l # es) = sent es"
| "sent (SendTo d a # es) = (d, a) # sent es"

text \<open>An ASCII literal as a Python \<open>str\<close>.\<close>

definition str :: "string \<Rightarrow> pystr" where
  "str s = map of_char s"

text \<open>
  The text \<open>encode\<close> accepts: code points that are not surrogates.
\<close>

definition encodable :: "pystr \<Rightarrow> bool" where
  "encodable s \<longleftrightarrow> list_all (\<lambda>c. c < 0x110000 \<and> \<not> (0xD800 \<le> c \<and> c < 0xE000)) s"

text \<open>
  The contents \<open>pack_query\<close> can put on the wire: a key whose first
  \<open>MAX_KEY_SIZE\<close> characters \<open>encode\<close> accepts, an address that \<open>inet_aton\<close>
  accepts, and a port and a sequence number that fit their header fields.
\<close>

definition valid_content :: "QueryContent \<Rightarrow> bool" where
  "valid_content c \<longleftrightarrow>
     encodable (take MAX_KEY_SIZE (key c)) \<and> \<not> isl (inet_aton (fst (address c)))
     \<and> 0 \<le> snd (address c) \<and> snd (address c) < 65536
     \<and> 0 \<le> sequence c \<and> sequence c < 4294967296"


section \<open>Facts about the library functions\<close>

subsection \<open>Exceptions and fixed-width fields\<close>

lemma and_then_Inr [simp]: "and_then (Inr v) f = f v"
  by (simp add: and_then_def)

lemma and_then_Inl [simp]: "and_then (Inl e) f = Inl e"
  by (simp add: and_then_def)

lemma and_then_eq_Inr: "and_then r f = Inr y \<longleftrightarrow> (\<exists>v. r = Inr v \<and> f v = Inr y)"
  by (cases r) simp_all

lemma unat_byte: "n < 256 \<Longrightarrow> unat (of_nat n :: byte) = n"
  by (simp add: unat_of_nat take_bit_nat_eq_self)

lemma uint_byte: "0 \<le> v \<Longrightarrow> v < 256 \<Longrightarrow> uint (word_of_int v :: byte) = v"
  by (simp add: uint_word_of_int take_bit_int_eq_self)

lemma pack_H_unpack: 
  assumes "0 \<le> v" "v < 65536"
  shows "\<exists>a b. pack_H v = Inr [a, b] \<and> be_H a b = v"
proof -
  have "0 \<le> v div 256" "v div 256 < 256" "0 \<le> v mod 256" "v mod 256 < 256"
    using assms by auto
  then have "be_H (word_of_int (v div 256)) (word_of_int (v mod 256)) = v"
    by (simp add: be_H_def uint_byte)
  then show ?thesis using assms by (simp add: pack_H_def)
qed

lemma be_I_digits:
  fixes v :: int
  shows "v div 16777216 * 16777216 + v div 65536 mod 256 * 65536 + v div 256 mod 256 * 256
           + v mod 256 = v"
proof -
  have a: "v div 65536 = v div 256 div 256" and b: "v div 16777216 = v div 256 div 256 div 256"
    by (simp_all add: zdiv_zmult2_eq)
  have "v = v div 256 * 256 + v mod 256" by simp
  moreover have "v div 256 = v div 256 div 256 * 256 + v div 256 mod 256" by simp
  moreover have "v div 256 div 256 = v div 256 div 256 div 256 * 256 + v div 256 div 256 mod 256"
    by simp
  ultimately show ?thesis unfolding a b by linarith
qed

lemma pack_I_unpack: 
  assumes "0 \<le> v" "v < 4294967296"
  shows "\<exists>a b c d. pack_I v = Inr [a, b, c, d] \<and> be_I a b c d = v"
proof -
  have "0 \<le> v div 16777216" "v div 16777216 < 256" "0 \<le> v mod 256" "v mod 256 < 256"
     "0 \<le> v div 65536 mod 256" "v div 65536 mod 256 < 256"
     "0 \<le> v div 256 mod 256" "v div 256 mod 256 < 256"
    using assms by auto
  then have "be_I (word_of_int (v div 16777216)) (word_of_int (v div 65536 mod 256)) (word_of_int (v div 256 mod 256)) (word_of_int (v mod 256)) = v"
    by (simp only: be_I_def uint_byte be_I_digits)
  moreover have "pack_I v = Inr [word_of_int (v div 16777216), word_of_int (v div 65536 mod 256),
                word_of_int (v div 256 mod 256), word_of_int (v mod 256)]"
    unfolding pack_I_def using assms by (simp only: if_True simp_thms)
  ultimately show ?thesis by blast
qed

lemma be_H_range: "0 \<le> be_H a b \<and> be_H a b < 65536"
proof -
  have "uint a < 256" "uint b < 256" using uint_bounded[of a] uint_bounded[of b] by simp_all
  then show ?thesis by (simp add: be_H_def)
qed

lemma be_I_range: "0 \<le> be_I a b c d \<and> be_I a b c d < 4294967296"
proof -
  have "uint a < 256" "uint b < 256" "uint c < 256" "uint d < 256" 
    using uint_bounded[of a] uint_bounded[of b] uint_bounded[of c] uint_bounded[of d] by simp_all
  then show ?thesis by (simp add: be_I_def)
qed

subsection \<open>UTF-8: decoding an encoding gives the text back\<close>

lemma digits2: fixes c :: nat assumes "c < 0x800"
  shows "c div 64 < 32" "c mod 64 < 64" "c div 64 * 64 + c mod 64 = c"
  using assms by simp_all

lemma digits3: fixes c :: nat assumes "c < 0x10000"
  shows "c div 4096 < 16" "c div 64 mod 64 < 64" "c mod 64 < 64"
    "c div 4096 * 4096 + c div 64 mod 64 * 64 + c mod 64 = c"
proof -
  have a: "c div 4096 = c div 64 div 64" by (simp add: div_mult2_eq)
  show "c div 4096 < 16" using assms by simp
  show "c div 64 mod 64 < 64" "c mod 64 < 64" by simp_all
  have "c = c div 64 * 64 + c mod 64" by simp
  moreover have "c div 64 = c div 64 div 64 * 64 + c div 64 mod 64" by simp
  ultimately show "c div 4096 * 4096 + c div 64 mod 64 * 64 + c mod 64 = c"
    unfolding a by linarith
qed

lemma digits4: fixes c :: nat assumes "c < 0x110000"
  shows "c div 262144 < 8" "c div 4096 mod 64 < 64" "c div 64 mod 64 < 64" "c mod 64 < 64"
    "c div 262144 * 262144 + c div 4096 mod 64 * 4096 + c div 64 mod 64 * 64 + c mod 64 = c"
proof -
  have a: "c div 4096 = c div 64 div 64" and b: "c div 262144 = c div 64 div 64 div 64"
    by (simp_all add: div_mult2_eq)
  show "c div 262144 < 8" using assms by simp
  show "c div 4096 mod 64 < 64" "c div 64 mod 64 < 64" "c mod 64 < 64" by simp_all
  have "c = c div 64 * 64 + c mod 64" by simp
  moreover have "c div 64 = c div 64 div 64 * 64 + c div 64 mod 64" by simp
  moreover have "c div 64 div 64 = c div 64 div 64 div 64 * 64 + c div 64 div 64 mod 64" by simp
  ultimately show "c div 262144 * 262144 + c div 4096 mod 64 * 4096 + c div 64 mod 64 * 64
      + c mod 64 = c"
    unfolding a b by linarith
qed

lemma cont_byte: assumes "lo < 64"
  shows "is_cont (of_nat (0x80 + lo))" "cont_bits (of_nat (0x80 + lo)) = lo"
proof -
  have "unat (of_nat (0x80 + lo) :: byte) = 0x80 + lo"
    using assms by (intro unat_byte) simp
  then show "is_cont (of_nat (0x80 + lo))" "cont_bits (of_nat (0x80 + lo)) = lo"
    using assms by (simp_all add: is_cont_def cont_bits_def)
qed

lemma utf8_first_1: 
  assumes "c < 0x80"
  shows "utf8_first (of_nat c # rest) = Some (c, 1)"
proof -
  have "unat (of_nat c :: byte) = c" using assms by (intro unat_byte) simp
  then show ?thesis using assms by (simp add: utf8_first_def)
qed

lemma utf8_first_2:
  assumes "hi < 32" "lo < 64" "0x80 \<le> hi * 64 + lo"
  shows "utf8_first (of_nat (0xC0 + hi) # of_nat (0x80 + lo) # rest) = Some (hi * 64 + lo, 2)"
proof -
  have "unat (of_nat (0xC0 + hi) :: byte) = 0xC0 + hi"
    using assms by (intro unat_byte) simp
  then show ?thesis using assms by (simp add: utf8_first_def cont_byte del: of_nat_add)
qed

lemma utf8_first_3:
  assumes "a < 16" "b < 64" "lo < 64" "0x800 \<le> a * 4096 + b * 64 + lo"
    "\<not> (0xD800 \<le> a * 4096 + b * 64 + lo \<and> a * 4096 + b * 64 + lo < 0xE000)"
  shows "utf8_first (of_nat (0xE0 + a) # of_nat (0x80 + b) # of_nat (0x80 + lo) # rest)
         = Some (a * 4096 + b * 64 + lo, 3)"
proof -
  have "unat (of_nat (0xE0 + a) :: byte) = 0xE0 + a"
    using assms by (intro unat_byte) simp
  then show ?thesis using assms by (simp add: utf8_first_def cont_byte del: of_nat_add)
qed

lemma utf8_first_4:
  assumes "a < 8" "b < 64" "m < 64" "lo < 64" "0x10000 \<le> a * 262144 + b * 4096 + m * 64 + lo"
    "a * 262144 + b * 4096 + m * 64 + lo < 0x110000"
  shows "utf8_first (of_nat (0xF0 + a) # of_nat (0x80 + b) # of_nat (0x80 + m)
            # of_nat (0x80 + lo) # rest)
         = Some (a * 262144 + b * 4096 + m * 64 + lo, 4)"
proof -
  have "unat (of_nat (0xF0 + a) :: byte) = 0xF0 + a"
    using assms by (intro unat_byte) simp
  then show ?thesis using assms by (simp add: utf8_first_def cont_byte del: of_nat_add)
qed

lemma utf8_first_encode_char:
  assumes "c < 0x110000" "\<not> (0xD800 \<le> c \<and> c < 0xE000)"
  shows "\<exists>b bs. utf8_encode_char c = Inr (b # bs)
           \<and> utf8_first (b # bs @ rest) = Some (c, Suc (length bs))"
proof -
  consider "c < 0x80" | "0x80 \<le> c" "c < 0x800" | "0x800 \<le> c" "c < 0x10000" | "0x10000 \<le> c"
    by linarith
  then show ?thesis
  proof cases
    case 1
    then have "utf8_encode_char c = Inr [of_nat c]"
      by (simp add: utf8_encode_char_def)
    then show ?thesis using utf8_first_1 [OF 1, of rest] by simp
  next
    case 2
    have e: "utf8_encode_char c = Inr [of_nat (0xC0 + c div 64), of_nat (0x80 + c mod 64)]"
      unfolding utf8_encode_char_def using 2 by (simp only: if_True if_False not_less [symmetric] simp_thms)
    have "0x80 \<le> c div 64 * 64 + c mod 64" using 2(1) digits2(3) [OF 2(2)] by simp
    from utf8_first_2 [OF digits2(1,2) [OF 2(2)] this, of rest]
    have "utf8_first (of_nat (0xC0 + c div 64) # of_nat (0x80 + c mod 64) # rest) = Some (c, 2)"
      unfolding digits2(3) [OF 2(2)] .
    then show ?thesis unfolding e by simp
  next
    case 3
    have lt: "\<not> c < 0x80" "\<not> c < 0x800" using 3 by simp_all
    have e: "utf8_encode_char c = Inr [of_nat (0xE0 + c div 4096), of_nat (0x80 + c div 64 mod 64),
                   of_nat (0x80 + c mod 64)]"
      unfolding utf8_encode_char_def using 3(2) lt assms(2) by (simp only: if_True if_False simp_thms)
    note d = digits3 [OF 3(2)]
    have "0x800 \<le> c div 4096 * 4096 + c div 64 mod 64 * 64 + c mod 64"
      "\<not> (0xD800 \<le> c div 4096 * 4096 + c div 64 mod 64 * 64 + c mod 64
          \<and> c div 4096 * 4096 + c div 64 mod 64 * 64 + c mod 64 < 0xE000)"
      unfolding d(4) using 3 assms(2) by blast+
    from utf8_first_3 [OF d(1,2,3) this, of rest]
    have "utf8_first (of_nat (0xE0 + c div 4096) # of_nat (0x80 + c div 64 mod 64)
             # of_nat (0x80 + c mod 64) # rest) = Some (c, 3)"
      unfolding d(4) .
    then show ?thesis unfolding e by simp
  next
    case 4
    have lt: "\<not> c < 0x80" "\<not> c < 0x800" "\<not> c < 0x10000" using 4 by simp_all
    have e: "utf8_encode_char c = Inr [of_nat (0xF0 + c div 262144), of_nat (0x80 + c div 4096 mod 64),
             of_nat (0x80 + c div 64 mod 64), of_nat (0x80 + c mod 64)]"
      unfolding utf8_encode_char_def using assms(1) lt by (simp only: if_True if_False simp_thms)
    note d = digits4 [OF assms(1)]
    have "0x10000 \<le> c div 262144 * 262144 + c div 4096 mod 64 * 4096 + c div 64 mod 64 * 64
            + c mod 64"
      "c div 262144 * 262144 + c div 4096 mod 64 * 4096 + c div 64 mod 64 * 64 + c mod 64
         < 0x110000"
      unfolding d(5) using 4 assms(1) by blast+
    from utf8_first_4 [OF d(1,2,3,4) this, of rest]
    have "utf8_first (of_nat (0xF0 + c div 262144) # of_nat (0x80 + c div 4096 mod 64)
             # of_nat (0x80 + c div 64 mod 64) # of_nat (0x80 + c mod 64) # rest) = Some (c, 4)"
      unfolding d(5) .
    then show ?thesis unfolding e by simp
  qed
qed

lemma utf8_encode_char_Inr:
  "utf8_encode_char c = Inr b \<Longrightarrow> c < 0x110000 \<and> \<not> (0xD800 \<le> c \<and> c < 0xE000)"
  unfolding utf8_encode_char_def by (auto split: if_splits)

lemma encodable_Nil [simp]: "encodable []"
  by (simp add: encodable_def)

lemma encodable_Cons:
  "encodable (c # s) \<longleftrightarrow> (c < 0x110000 \<and> \<not> (0xD800 \<le> c \<and> c < 0xE000)) \<and> encodable s"
  by (simp add: encodable_def)

lemma encodable_append [simp]: "encodable (s @ t) \<longleftrightarrow> encodable s \<and> encodable t"
  by (simp add: encodable_def)

lemma encodable_take: "encodable s \<Longrightarrow> encodable (take n s)"
  unfolding encodable_def list_all_iff by (auto dest: in_set_takeD)

lemma decode_encode:
  "encodable s \<Longrightarrow> \<exists>b. encode s = Inr b \<and> decode b = Inr s"
proof (induction s)
  case Nil
  show ?case by simp
next
  case (Cons c s)
  from Cons.prems have v: "c < 0x110000" "\<not> (0xD800 \<le> c \<and> c < 0xE000)" and "encodable s"
    by (simp_all add: encodable_Cons)
  with Cons.IH obtain bs where bs: "encode s = Inr bs" "decode bs = Inr s" by blast
  from utf8_first_encode_char [OF v, of bs] obtain x xs where
    x: "utf8_encode_char c = Inr (x # xs)" "utf8_first (x # xs @ bs) = Some (c, Suc (length xs))"
    by blast
  have "encode (c # s) = Inr (x # xs @ bs)" using x(1) bs(1) by simp
  moreover have "decode (x # xs @ bs) = Inr (c # s)" using x(2) bs(2) by simp
  ultimately show ?case by blast
qed

lemma encode_Inr_encodable: "encode s = Inr b \<Longrightarrow> encodable s"
proof (induction s arbitrary: b)
  case Nil
  show ?case by simp
next
  case (Cons c s)
  then show ?case
    by (auto simp: and_then_eq_Inr encodable_Cons dest: utf8_encode_char_Inr)
qed

lemma cont_bits_less: "is_cont b \<Longrightarrow> cont_bits b < 64"
  by (auto simp: is_cont_def cont_bits_def)

lemma utf8_first_Some:
  assumes "utf8_first bs = Some (c, n)"
  shows "c < 0x110000 \<and> \<not> (0xD800 \<le> c \<and> c < 0xE000)"
  using assms
  by (auto simp: utf8_first_def Let_def split: list.splits if_splits dest!: cont_bits_less)

lemma decode_encodable: "decode bs = Inr s \<Longrightarrow> encodable s"
proof (induction bs arbitrary: s rule: decode.induct)
  case 1
  then show ?case by simp
next
  case (2 b bs)
  from "2.prems" obtain c n t where f: "utf8_first (b # bs) = Some (c, n)"
    and t: "decode (drop (n - 1) bs) = Inr t" and s: "s = c # t"
    by (auto simp: and_then_eq_Inr split: option.splits)
  from "2.IH" [OF f refl t] have "encodable t" .
  with utf8_first_Some [OF f] show ?case unfolding s encodable_Cons by blast
qed

lemma rstrip_nul_snoc_nul [simp]: "rstrip_nul (s @ [0]) = rstrip_nul s"
  by (simp add: rstrip_nul_def)

lemma rstrip_nul_id: "0 \<notin> set s \<Longrightarrow> rstrip_nul s = s"
proof -
  assume "0 \<notin> set s"
  then have "dropWhile (\<lambda>c. c = 0) (rev s) = rev s"
    by (cases "rev s") auto
  then show ?thesis by (simp add: rstrip_nul_def)
qed

lemma rstrip_nul_last: "s \<noteq> [] \<Longrightarrow> last s \<noteq> 0 \<Longrightarrow> rstrip_nul s = s"
proof -
  assume "s \<noteq> []" "last s \<noteq> 0"
  then have "dropWhile (\<lambda>c. c = 0) (rev s) = rev s"
    by (cases "rev s") (auto simp: last_rev [symmetric] simp del: last_rev)
  then show ?thesis by (simp add: rstrip_nul_def)
qed

lemma set_rstrip_nul: "set (rstrip_nul s) \<subseteq> set s"
  unfolding rstrip_nul_def using set_dropWhileD [of _ "\<lambda>c. c = 0" "rev s"] by auto

lemma encodable_rstrip_nul: "encodable s \<Longrightarrow> encodable (rstrip_nul s)"
  unfolding encodable_def list_all_iff using set_rstrip_nul [of s] by blast

subsection \<open>Dotted decimal notation\<close>

lemma inet_aton_parts_numeral:
  "inet_aton_parts (numeral k) cp =
     (case inet_aton_number cp of
        None \<Rightarrow> None
      | Some (val, endp) \<Rightarrow>
          (case endp of
             [] \<Rightarrow> Some ([], val, endp)
           | c # cp' \<Rightarrow>
               if c = 46 then
                 (if 0xff < val then None
                  else (case inet_aton_parts (pred_numeral k) cp' of
                          None \<Rightarrow> None
                        | Some (parts, last_val, rest) \<Rightarrow> Some (val # parts, last_val, rest)))
               else Some ([], val, endp)))"
  by (simp add: numeral_eq_Suc)

lemma digit_value_digit: "d < 10 \<Longrightarrow> digit_value (48 + d) = Some d"
  by (simp add: digit_value_def)

lemma digit_value_zero: "digit_value 48 = Some 0"
  by (simp add: digit_value_def)

lemma digit_value_dot [simp]: "digit_value 46 = None"
  by (simp add: digit_value_def)

lemma strtoul_digits_stop:
  "r = [] \<or> hd r = 46 \<Longrightarrow> strtoul_digits b acc r = (acc, r)"
  by (cases r) auto

lemma hex_prefix_digits:
  assumes "d < 10" and "r = [] \<or> hd r = 46 \<or> hd r < 58"
  shows "\<not> hex_prefix ((48 + d) # r)"
  using assms by (auto simp: hex_prefix_def split: list.splits)

lemma strtoul_octet:
  assumes "n < 256" and "r = [] \<or> hd r = 46"
  shows "strtoul (str_of_octet n @ r) = (n, r)"
proof -
  note stop = strtoul_digits_stop [OF assms(2)]
  consider (1) "n < 10" | (2) "10 \<le> n" "n < 100" | (3) "100 \<le> n" by linarith
  then show ?thesis
  proof cases
    case 1
    have s: "str_of_octet n = [48 + n]" using 1 by (simp add: str_of_octet_def)
    have h: "\<not> hex_prefix ((48 + n) # r)" using 1 assms(2) by (intro hex_prefix_digits) auto
    show ?thesis
      unfolding s using 1 h by (simp add: strtoul_def digit_value_digit digit_value_zero stop)
  next
    case 2
    define x where "x = n div 10"
    define y where "y = n mod 10"
    have n: "n = x * 10 + y" by (simp add: x_def y_def)
    have b: "0 < x" "x < 10" "y < 10" using 2 by (simp_all add: x_def y_def)
    have s: "str_of_octet n = [48 + x, 48 + y]" using 2 by (simp add: str_of_octet_def x_def y_def)
    have h: "\<not> hex_prefix ((48 + x) # (48 + y) # r)"
      using b by (intro hex_prefix_digits) auto
    have "strtoul ([48 + x, 48 + y] @ r) = (x * 10 + y, r)"
      using b h by (simp add: strtoul_def digit_value_digit stop)
    then show ?thesis unfolding s [symmetric] n [symmetric] .
  next
    case 3
    define x where "x = n div 100"
    define y where "y = n div 10 mod 10"
    define z where "z = n mod 10"
    have "n div 10 = x * 10 + y" unfolding x_def y_def
      using div_mult2_eq [of n 10 10] by simp
    then have n: "n = (x * 10 + y) * 10 + z" unfolding z_def by (metis div_mult_mod_eq)
    have b: "0 < x" "x < 10" "y < 10" "z < 10"
      using 3 assms(1) by (simp_all add: x_def y_def z_def)
    have s: "str_of_octet n = [48 + x, 48 + y, 48 + z]"
      using 3 by (simp add: str_of_octet_def x_def y_def z_def)
    have h: "\<not> hex_prefix ((48 + x) # (48 + y) # (48 + z) # r)"
      using b by (intro hex_prefix_digits) auto
    have "strtoul ([48 + x, 48 + y, 48 + z] @ r) = ((x * 10 + y) * 10 + z, r)"
      using b h by (simp add: strtoul_def digit_value_digit stop)
    then show ?thesis unfolding s [symmetric] n [symmetric] .
  qed
qed

lemma inet_aton_number_octet:
  assumes "n < 256" and "r = [] \<or> hd r = 46"
  shows "inet_aton_number (str_of_octet n @ r) = Some (n, r)"
proof -
  have "n div 10 < 10" if "n < 100" using that by simp
  moreover have "n div 100 < 10" using assms(1) by simp
  ultimately obtain c cs where c: "str_of_octet n @ r = c # cs" "48 \<le> c" "c \<le> 57"
    by (cases "n < 10"; cases "n < 100") (auto simp: str_of_octet_def)
  have "inet_aton_number (c # cs) = Some (n, r)"
    using strtoul_octet [OF assms] assms(1) c by (simp add: inet_aton_number_def)
  with c show ?thesis by simp
qed

lemma inet_aton_parts_octet:
  assumes "n < 256"
  shows "inet_aton_parts (Suc room) (str_of_octet n @ 46 # rest)
         = (case inet_aton_parts room rest of
              None \<Rightarrow> None
            | Some (parts, last_val, r) \<Rightarrow> Some (n # parts, last_val, r))"
  using assms inet_aton_number_octet [OF assms, of "46 # rest"] by simp

lemma inet_aton_parts_last:
  assumes "n < 256"
  shows "inet_aton_parts room (str_of_octet n) = Some ([], n, [])"
  using inet_aton_number_octet [OF assms, of "[]"] by (cases room) simp_all

lemma str_of_octet_text:
  assumes "n < 256"
  shows "encodable (str_of_octet n) \<and> 0 \<notin> set (str_of_octet n)"
proof -
  have "n div 10 < 256" "n mod 10 < 256" "n div 100 < 256" "n div 10 mod 10 < 256"
    using assms by simp_all
  then show ?thesis using assms by (simp add: str_of_octet_def encodable_def)
qed

lemma inet_aton_inet_ntoa:
  assumes "inet_ntoa packed = Inr ip"
  shows "inet_aton ip = Inr packed"
proof -
  from assms obtain a b c d where p: "packed = [a, b, c, d]"
    and ip: "ip = str_of_octet (unat a) @ 46 # str_of_octet (unat b) @ 46
               # str_of_octet (unat c) @ 46 # str_of_octet (unat d)"
    by (auto simp: inet_ntoa_def split: list.splits)
  have lt: "unat a < 256" "unat b < 256" "unat c < 256" "unat d < 256"
    using unsigned_less [of a] unsigned_less [of b] unsigned_less [of c] unsigned_less [of d]
    by simp_all
  note t = lt [THEN str_of_octet_text]
  have "encodable ip" "0 \<notin> set ip" unfolding ip using t by (simp_all add: encodable_Cons)
  moreover from decode_encode [OF \<open>encodable ip\<close>] obtain e where "encode ip = Inr e" by blast
  moreover have "inet_aton_parts 3 ip = Some ([unat a, unat b, unat c], unat d, [])"
    unfolding ip numeral_3_eq_3
    by (simp add: inet_aton_parts_octet inet_aton_parts_last lt del: inet_aton_parts.simps)
  ultimately show ?thesis using lt by (simp add: inet_aton_def p)
qed

lemma inet_aton_length:
  assumes "inet_aton ip = Inr packed"
  shows "length packed = 4"
  using assms
  by (auto simp: inet_aton_def and_then_eq_Inr split: if_splits option.splits)

lemmas inet_aton_eval = inet_aton_def inet_aton_number_def strtoul_def hex_prefix_def
  digit_value_def is_space_def inet_aton_parts_numeral utf8_encode_char_def Let_def

lemma inet_aton_10_0_0_1: "inet_aton [49, 48, 46, 48, 46, 48, 46, 49] = Inr [10, 0, 0, 1]"
  by (simp add: inet_aton_eval)

lemma inet_ntoa_4: "\<exists>ip. inet_ntoa [a, b, c, d] = Inr ip"
  by (simp add: inet_ntoa_def)

subsection \<open>The codec: what packing checks and what unpacking returns\<close>

lemma pack_H_Inr:
  assumes "pack_H v = Inr l"
  shows "0 \<le> v \<and> v < 65536 \<and> (\<exists>a b. l = [a, b] \<and> be_H a b = v)"
proof -
  from assms have r: "0 \<le> v" "v < 65536" by (auto simp: pack_H_def split: if_splits)
  from pack_H_unpack [OF r] assms show ?thesis using r by auto
qed

lemma pack_I_Inr:
  assumes "pack_I v = Inr l"
  shows "0 \<le> v \<and> v < 4294967296 \<and> (\<exists>a b c d. l = [a, b, c, d] \<and> be_I a b c d = v)"
proof -
  have r: "0 \<le> v \<and> v < 4294967296"
  proof (rule ccontr)
    assume "\<not> (0 \<le> v \<and> v < 4294967296)"
    then have "pack_I v = Inl StructError" unfolding pack_I_def by (simp only: if_False)
    with assms show False by simp
  qed
  then have r: "0 \<le> v" "v < 4294967296" by blast+
  from pack_I_unpack [OF r] assms show ?thesis using r by auto
qed

lemma pack_type_value:
  "pack_type (MessageType_value t) = Inr [0, word_of_int (MessageType_value t)]"
  by (cases t) (simp_all add: pack_type_def pack_H_def MessageType_value_def)

lemma extract_message_type_value:
  "extract_message_type (0 # word_of_int (MessageType_value t) # rest) = Inr t"
  by (cases t)
    (simp_all add: extract_message_type_def unpack_type_def MESSAGE_TYPE_SIZE_def be_H_def
      MessageType_value_def MessageType_of_def)

lemma unpack_pack_clireq:
  assumes "encodable (take MAX_KEY_SIZE k)"
  shows "\<exists>w. pack_clireq k = Inr w
           \<and> unpack_clireq w = Inr (rstrip_nul (take MAX_KEY_SIZE k), [])"
proof -
  from assms have "encodable (take MAX_KEY_SIZE k @ [0])" by (simp add: encodable_Cons)
  from decode_encode [OF this] obtain d where
    d: "encode (take MAX_KEY_SIZE k @ [0]) = Inr d" "decode d = Inr (take MAX_KEY_SIZE k @ [0])"
    by blast
  have "pack_clireq k = Inr (0 # word_of_int (MessageType_value CLIREQ) # d)"
    using d(1) by (simp add: pack_clireq_def pack_type_value)
  moreover have "unpack_clireq (0 # word_of_int (MessageType_value CLIREQ) # d)
      = Inr (rstrip_nul (take MAX_KEY_SIZE k), [])"
    using d(2) by (simp add: unpack_clireq_def extract_message_type_value MESSAGE_TYPE_SIZE_def)
  ultimately show ?thesis by simp
qed

lemma unpack_pack_response:
  assumes "encodable (take MAX_KEY_SIZE k)" "encodable (take MAX_VALUE_SIZE v)"
  shows "\<exists>w. pack_response k v = Inr w
           \<and> extract_message_type w = Inr RESPONSE
           \<and> unpack_response w
               = Inr (rstrip_nul (take MAX_KEY_SIZE k @ 9 # take MAX_VALUE_SIZE v), [])"
proof -
  let ?r = "take MAX_KEY_SIZE k @ 9 # take MAX_VALUE_SIZE v"
  from assms have "encodable (?r @ [0])" by (simp add: encodable_Cons)
  from decode_encode [OF this] obtain d where
    d: "encode (?r @ [0]) = Inr d" "decode d = Inr (?r @ [0])"
    by blast
  have "pack_response k v = Inr (0 # word_of_int (MessageType_value RESPONSE) # d)"
    using d(1) by (simp add: pack_response_def pack_type_value)
  moreover have "unpack_response (0 # word_of_int (MessageType_value RESPONSE) # d)
      = Inr (rstrip_nul ?r, [])"
    using d(2) rstrip_nul_snoc_nul [of ?r]
    by (simp add: unpack_response_def extract_message_type_value MESSAGE_TYPE_SIZE_def
          del: rstrip_nul_snoc_nul)
  ultimately show ?thesis by (simp add: extract_message_type_value)
qed

lemma pack_response_Inr:
  assumes "pack_response k v = Inr w"
  shows "encodable (take MAX_KEY_SIZE k) \<and> encodable (take MAX_VALUE_SIZE v)"
proof -
  from assms obtain d where "encode (take MAX_KEY_SIZE k @ [9] @ take MAX_VALUE_SIZE v @ [0]) = Inr d"
    by (auto simp: pack_response_def and_then_eq_Inr)
  from encode_Inr_encodable [OF this] show ?thesis by (simp add: encodable_Cons)
qed

text \<open>What a successful \<open>pack_query\<close> has checked and what it returns.\<close>

lemma pack_query_Inr:
  assumes "pack_query q = Inr w"
  shows "\<exists>i1 i2 i3 i4 l1 l2 p1 p2 s1 s2 s3 s4 d.
           inet_aton (fst (address (content q))) = Inr [i1, i2, i3, i4]
         \<and> be_H l1 l2 = ttl q \<and> be_H p1 p2 = snd (address (content q))
         \<and> be_I s1 s2 s3 s4 = sequence (content q)
         \<and> encode (take MAX_KEY_SIZE (key (content q)) @ [0]) = Inr d
         \<and> w = [0, 2, l1, l2, i1, i2, i3, i4, p1, p2, s1, s2, s3, s4] @ d"
proof -
  obtain ip port where a: "address (content q) = (ip, port)" by (cases "address (content q)")
  from assms a obtain p h d where p: "inet_aton ip = Inr p"
    and h: "pack_query_header (MessageType_value QUERY) (ttl q) p port (sequence (content q)) = Inr h"
    and d: "encode (take MAX_KEY_SIZE (key (content q)) @ [0]) = Inr d" and w: "w = h @ d"
    by (auto simp: pack_query_def and_then_eq_Inr)
  from inet_aton_length [OF p] have "length p = 4" .
  then obtain i1 i2 i3 i4 where p4: "p = [i1, i2, i3, i4]"
    by (cases p rule: list.exhaust; simp; rename_tac t; case_tac t; simp; rename_tac u;
        case_tac u; simp; rename_tac x; case_tac x; simp)
  from h obtain t l pp s where t: "pack_H (MessageType_value QUERY) = Inr t"
    and l: "pack_H (ttl q) = Inr l" and pp: "pack_H port = Inr pp"
    and s: "pack_I (sequence (content q)) = Inr s" and hh: "h = t @ l @ pack_4s p @ pp @ s"
    by (auto simp: pack_query_header_def and_then_eq_Inr)
  from t have t2: "t = [0, 2]" using pack_type_value [of QUERY]
    by (simp add: pack_type_def MessageType_value_def)
  from pack_H_Inr [OF l] obtain l1 l2 where l2: "l = [l1, l2]" "be_H l1 l2 = ttl q" by blast
  from pack_H_Inr [OF pp] obtain p1 p2 where pp2: "pp = [p1, p2]" "be_H p1 p2 = port" by blast
  from pack_I_Inr [OF s] obtain s1 s2 s3 s4 where
    s4: "s = [s1, s2, s3, s4]" "be_I s1 s2 s3 s4 = sequence (content q)" by blast
  have "w = [0, 2, l1, l2, i1, i2, i3, i4, p1, p2, s1, s2, s3, s4] @ d"
    unfolding w hh t2 l2 pp2 s4 p4 by (simp add: pack_4s_def)
  with p p4 l2 pp2 s4 d a show ?thesis by auto
qed

text \<open>
  Unpacking what \<open>pack_query\<close> returned: the address comes back as \<open>inet_ntoa\<close> writes the
  bytes \<open>inet_aton\<close> read, the key cut to \<open>MAX_KEY_SIZE\<close> and without trailing NULs, and
  the time to live less one.
\<close>

lemma unpack_pack_query:
  assumes "pack_query q = Inr w"
  shows "\<exists>packed_ip ip'.
           inet_aton (fst (address (content q))) = Inr packed_ip
         \<and> inet_ntoa packed_ip = Inr ip'
         \<and> unpack_query w
             = Inr (\<lparr>content = \<lparr>key = rstrip_nul (take MAX_KEY_SIZE (key (content q))),
                                 address = (ip', snd (address (content q))),
                                 sequence = sequence (content q)\<rparr>,
                     ttl = ttl q - 1\<rparr>, [])"
proof -
  from pack_query_Inr [OF assms] obtain i1 i2 i3 i4 l1 l2 p1 p2 s1 s2 s3 s4 d where
    ip: "inet_aton (fst (address (content q))) = Inr [i1, i2, i3, i4]"
    and f: "be_H l1 l2 = ttl q" "be_H p1 p2 = snd (address (content q))"
      "be_I s1 s2 s3 s4 = sequence (content q)"
    and d: "encode (take MAX_KEY_SIZE (key (content q)) @ [0]) = Inr d"
    and w: "w = [0, 2, l1, l2, i1, i2, i3, i4, p1, p2, s1, s2, s3, s4] @ d"
    by blast
  from encode_Inr_encodable [OF d] decode_encode obtain d' where
    "encode (take MAX_KEY_SIZE (key (content q)) @ [0]) = Inr d'"
    "decode d' = Inr (take MAX_KEY_SIZE (key (content q)) @ [0])" by blast
  with d have dd: "decode d = Inr (take MAX_KEY_SIZE (key (content q)) @ [0])" by simp
  from inet_ntoa_4 [of i1 i2 i3 i4] obtain ip' where
    n: "inet_ntoa [i1, i2, i3, i4] = Inr ip'" by blast
  have t: "be_H 0 2 = 2" by (simp add: be_H_def)
  have "unpack_query w
        = Inr (\<lparr>content = \<lparr>key = rstrip_nul (take MAX_KEY_SIZE (key (content q))),
                            address = (ip', snd (address (content q))),
                            sequence = sequence (content q)\<rparr>,
                ttl = ttl q - 1\<rparr>, [])"
    unfolding w
    by (simp add: unpack_query_def unpack_query_header_def QUERY_HEADER_SIZE_def
        MESSAGE_TYPE_SIZE_def dd n f t MessageType_of_def)
  with ip n show ?thesis by blast
qed

lemma unpack_pack_query_ttl:
  assumes "pack_query q = Inr w"
  shows "\<exists>q' logged. unpack_query w = Inr (q', logged) \<and> ttl q' = ttl q - 1
           \<and> sequence (content q') = sequence (content q)"
  using unpack_pack_query [OF assms] by auto

lemma unpack_pack_query_canonical:
  assumes "pack_query q = Inr w"
    and "inet_ntoa packed_ip = Inr (fst (address (content q)))"
  shows "unpack_query w
         = Inr (\<lparr>content = \<lparr>key = rstrip_nul (take MAX_KEY_SIZE (key (content q))),
                             address = address (content q),
                             sequence = sequence (content q)\<rparr>,
                 ttl = ttl q - 1\<rparr>, [])"
  using unpack_pack_query [OF assms(1)] inet_aton_inet_ntoa [OF assms(2)] assms(2)
  by auto

lemma pack_query_succeeds:
  assumes "valid_content (content q)" and "0 \<le> ttl q" and "ttl q < 65536"
  shows "\<exists>w. pack_query q = Inr w"
proof -
  obtain ip port where a: "address (content q) = (ip, port)" by (cases "address (content q)")
  from assms(1) a obtain p where p: "inet_aton ip = Inr p"
    by (cases "inet_aton ip") (auto simp: valid_content_def)
  from assms(1) have "encodable (take MAX_KEY_SIZE (key (content q)) @ [0])"
    by (simp add: valid_content_def encodable_Cons)
  from decode_encode [OF this] obtain d where
    d: "encode (take MAX_KEY_SIZE (key (content q)) @ [0]) = Inr d" by blast
  from pack_type_value [of QUERY] obtain t where
    t: "pack_H (MessageType_value QUERY) = Inr t" by (simp add: pack_type_def)
  from pack_H_unpack [OF assms(2,3)] obtain l where l: "pack_H (ttl q) = Inr l" by blast
  from assms(1) a have "0 \<le> port" "port < 65536" by (simp_all add: valid_content_def)
  from pack_H_unpack [OF this] obtain pp where pp: "pack_H port = Inr pp" by blast
  from assms(1) have "0 \<le> sequence (content q)" "sequence (content q) < 4294967296"
    by (simp_all add: valid_content_def)
  from pack_I_unpack [OF this] obtain s where s: "pack_I (sequence (content q)) = Inr s"
    by blast
  show ?thesis by (simp add: pack_query_def a p pack_query_header_def t l pp s d)
qed

lemma pack_query_ttl_range:
  assumes "pack_query q = Inr w"
  shows "0 \<le> ttl q \<and> ttl q < 65536"
proof -
  from pack_query_Inr [OF assms] obtain l1 l2 where "be_H l1 l2 = ttl q" by blast
  with be_H_range [of l1 l2] show ?thesis by simp
qed

section \<open>The time to live across the wire\<close>

text \<open>
  C4. For every query \<open>q\<close> with \<open>0 \<le> q.ttl < 2^16\<close> (and a content that can be put on
  the wire), \<open>pack_query\<close> returns a datagram, \<open>unpack_query\<close> returns a query from it, and
  the time to live of that query is \<open>q.ttl - 1\<close>: decoding always takes one hop off.
\<close>

theorem unpack_query_decreases_ttl:
  assumes "0 \<le> ttl q" and "ttl q < 2 ^ 16" and "valid_content (content q)"
  shows "\<exists>w q' logged. pack_query q = Inr w \<and> unpack_query w = Inr (q', logged)
           \<and> ttl q' = ttl q - 1"
proof -
  from assms pack_query_succeeds [of q] obtain w where w: "pack_query q = Inr w" by auto
  from unpack_pack_query_ttl [OF w] w show ?thesis by auto
qed

theorem unpack_query_decreases_ttl_witness:
  "valid_content \<lparr>key = str ''baz'', address = (str ''10.0.0.1'', 5000), sequence = 0\<rparr>
   \<and> (\<exists>w q' logged.
         pack_query \<lparr>content = \<lparr>key = str ''baz'', address = (str ''10.0.0.1'', 5000),
                                 sequence = 0\<rparr>, ttl = 3\<rparr> = Inr w
       \<and> unpack_query w = Inr (q', logged) \<and> ttl q' = 2)"
  using unpack_query_decreases_ttl
    [of "\<lparr>content = \<lparr>key = str ''baz'', address = (str ''10.0.0.1'', 5000),
                       sequence = 0\<rparr>, ttl = 3\<rparr>"]
  by (simp add: valid_content_def inet_aton_10_0_0_1 str_def encodable_def
      MAX_KEY_SIZE_def)

lemma MAX_SERVER_MESSAGE_SIZE_55: "MAX_SERVER_MESSAGE_SIZE = 55"
  by (simp add: MAX_SERVER_MESSAGE_SIZE_def CLIREQ_MESSAGE_SIZE_def QUERY_MESSAGE_SIZE_def
      QUERY_HEADER_SIZE_def MESSAGE_TYPE_SIZE_def MAX_KEY_SIZE_def)

section \<open>Datagrams that are no message\<close>

text \<open>
  C3. The claim is that the loop logs every datagram it cannot use and goes on. On the
  two bytes \<open>00 04\<close>, a type tag that is no \<open>MessageType\<close>, \<open>extract_message_type\<close>
  raises \<open>ValueError\<close>, and on a datagram of fewer than two bytes \<open>struct.error\<close>;
  nothing in \<open>main\<close> catches either, so the iteration and the whole loop end with
  the exception, whatever the configuration, the state and the datagrams still to come.
\<close>

theorem servent_stops_on_unknown_type:
  "servent_step cfg st ([0, 4], origin) = Inl ValueError
   \<and> servent_run cfg st (([0, 4], origin) # rest) = Inl ValueError
   \<and> servent_step cfg st ([], origin) = Inl StructError
   \<and> servent_run cfg st (([], origin) # rest) = Inl StructError"
  by (simp add: servent_step_def MAX_SERVER_MESSAGE_SIZE_55 extract_message_type_def
      unpack_type_def MESSAGE_TYPE_SIZE_def be_H_def MessageType_of_def)

section \<open>The codec round trip\<close>

text \<open>
  C1, as stated, fails for QUERY. \<open>unpack_query\<close> gives back the query with one hop
  taken off its time to live; and it gives back the address as \<open>inet_ntoa\<close> writes it,
  which is another text when the query carried its address in another notation: the
  address \<open>010.0.0.1\<close>, with an octal first field, comes back as \<open>8.0.0.1\<close>.
\<close>

theorem query_round_trip_changes_ttl:
  "pack_query \<lparr>content = \<lparr>key = str ''baz'', address = (str ''10.0.0.1'', 5000),
                           sequence = 7\<rparr>, ttl = 3\<rparr>
     = Inr [0, 2, 0, 3, 10, 0, 0, 1, 19, 136, 0, 0, 0, 7, 98, 97, 122, 0]
   \<and> unpack_query [0, 2, 0, 3, 10, 0, 0, 1, 19, 136, 0, 0, 0, 7, 98, 97, 122, 0]
     = Inr (\<lparr>content = \<lparr>key = str ''baz'', address = (str ''10.0.0.1'', 5000),
                         sequence = 7\<rparr>, ttl = 2\<rparr>, [])
   \<and> \<lparr>content = \<lparr>key = str ''baz'', address = (str ''10.0.0.1'', 5000),
                    sequence = 7\<rparr>, ttl = 2\<rparr>
     \<noteq> \<lparr>content = \<lparr>key = str ''baz'', address = (str ''10.0.0.1'', 5000),
                      sequence = 7\<rparr>, ttl = 3\<rparr>
   \<and> pack_query \<lparr>content = \<lparr>key = str ''baz'', address = (str ''010.0.0.1'', 5000),
                             sequence = 7\<rparr>, ttl = 3\<rparr>
     = Inr [0, 2, 0, 3, 8, 0, 0, 1, 19, 136, 0, 0, 0, 7, 98, 97, 122, 0]
   \<and> unpack_query [0, 2, 0, 3, 8, 0, 0, 1, 19, 136, 0, 0, 0, 7, 98, 97, 122, 0]
     = Inr (\<lparr>content = \<lparr>key = str ''baz'', address = (str ''8.0.0.1'', 5000),
                         sequence = 7\<rparr>, ttl = 2\<rparr>, [])
   \<and> str ''8.0.0.1'' \<noteq> str ''010.0.0.1''"
  by (simp add: pack_query_def inet_aton_eval pack_query_header_def
      pack_H_def pack_I_def MessageType_value_def pack_4s_def MAX_KEY_SIZE_def
      str_def
      unpack_query_def unpack_query_header_def QUERY_HEADER_SIZE_def
      MESSAGE_TYPE_SIZE_def be_H_def be_I_def MessageType_of_def inet_ntoa_def str_of_octet_def
      utf8_first_def rstrip_nul_def)

text \<open>
  C1, amended. For a key of at most 40 and a value of at most 160 characters, both
  without NUL and both text that UTF-8 can encode: \<open>unpack_clireq\<close> of \<open>pack_clireq\<close> is the
  key, and \<open>unpack_response\<close> of \<open>pack_response\<close> is the key, a tab and the value. For a
  query with that key, an address that \<open>inet_aton\<close> accepts and a port, a sequence number
  and a time to live that fit their header fields, \<open>unpack_query\<close> of \<open>pack_query\<close> is the
  query with its time to live decreased by one and with the text of its address replaced
  by what \<open>inet_ntoa\<close> writes for the bytes \<open>inet_aton\<close> read. When the address is
  already a text that \<open>inet_ntoa\<close> writes (four decimal fields from 0 to 255 without
  leading zeros), that is the query with only its time to live decreased by one. Nothing
  is logged.
\<close>

theorem codec_round_trip:
  assumes "length k \<le> MAX_KEY_SIZE" and "length v \<le> MAX_VALUE_SIZE"
    and "encodable k" and "encodable v" and "0 \<notin> set k" and "0 \<notin> set v"
    and "key (content q) = k" and "valid_content (content q)"
    and "0 \<le> ttl q" and "ttl q < 2 ^ 16"
  shows "(\<exists>w. pack_clireq k = Inr w \<and> unpack_clireq w = Inr (k, []))
       \<and> (\<exists>w. pack_response k v = Inr w \<and> unpack_response w = Inr (k @ 9 # v, []))
       \<and> (\<exists>w packed_ip ip'.
             pack_query q = Inr w
           \<and> inet_aton (fst (address (content q))) = Inr packed_ip
           \<and> inet_ntoa packed_ip = Inr ip'
           \<and> unpack_query w
               = Inr (q\<lparr>content := (content q)\<lparr>address := (ip', snd (address (content q)))\<rparr>,
                        ttl := ttl q - 1\<rparr>, []))
       \<and> ((\<exists>packed_ip. inet_ntoa packed_ip = Inr (fst (address (content q)))) \<longrightarrow>
            (\<exists>w. pack_query q = Inr w \<and> unpack_query w = Inr (q\<lparr>ttl := ttl q - 1\<rparr>, [])))"
proof -
  have tk: "take MAX_KEY_SIZE k = k" and tv: "take MAX_VALUE_SIZE v = v"
    using assms(1,2) by simp_all
  have rk: "rstrip_nul k = k" using assms(5) by (rule rstrip_nul_id)
  have rr: "rstrip_nul (k @ 9 # v) = k @ 9 # v"
    using assms(5,6) by (intro rstrip_nul_id) simp
  have 1: "\<exists>w. pack_clireq k = Inr w \<and> unpack_clireq w = Inr (k, [])"
    using unpack_pack_clireq [of k] assms(3) by (simp add: tk rk)
  have 2: "\<exists>w. pack_response k v = Inr w \<and> unpack_response w = Inr (k @ 9 # v, [])"
    using unpack_pack_response [of k v] assms(3,4) by (auto simp: tk tv rr)
  from assms(8-10) pack_query_succeeds [of q] obtain w where w: "pack_query q = Inr w"
    by auto
  from unpack_pack_query [OF w] obtain packed_ip ip' where
    a: "inet_aton (fst (address (content q))) = Inr packed_ip"
    and n: "inet_ntoa packed_ip = Inr ip'"
    and u: "unpack_query w
            = Inr (\<lparr>content = \<lparr>key = k, address = (ip', snd (address (content q))),
                                sequence = sequence (content q)\<rparr>,
                    ttl = ttl q - 1\<rparr>, [])"
    by (auto simp: assms(7) tk rk)
  have "\<lparr>content = \<lparr>key = k, address = (ip', snd (address (content q))),
                      sequence = sequence (content q)\<rparr>, ttl = ttl q - 1\<rparr>
        = q\<lparr>content := (content q)\<lparr>address := (ip', snd (address (content q)))\<rparr>,
             ttl := ttl q - 1\<rparr>"
    using assms(7) by (cases q, cases "content q") auto
  with u have 3: "unpack_query w
      = Inr (q\<lparr>content := (content q)\<lparr>address := (ip', snd (address (content q)))\<rparr>,
               ttl := ttl q - 1\<rparr>, [])"
    by simp
  have 4: "unpack_query w = Inr (q\<lparr>ttl := ttl q - 1\<rparr>, [])"
    if "inet_ntoa p = Inr (fst (address (content q)))" for p
  proof -
    have "\<lparr>content = \<lparr>key = k, address = address (content q),
                        sequence = sequence (content q)\<rparr>, ttl = ttl q - 1\<rparr>
          = q\<lparr>ttl := ttl q - 1\<rparr>"
      using assms(7) by (cases q, cases "content q") auto
    with unpack_pack_query_canonical [OF w that] show ?thesis by (simp add: assms(7) tk rk)
  qed
  from 1 2 3 4 w a n show ?thesis by blast
qed

theorem codec_round_trip_witness:
  "encodable (str ''baz'') \<and> encodable (str ''qux'')
   \<and> valid_content \<lparr>key = str ''baz'', address = (str ''10.0.0.1'', 5000), sequence = 7\<rparr>
   \<and> inet_ntoa [10, 0, 0, 1] = Inr (str ''10.0.0.1'')
   \<and> (\<exists>w. pack_clireq (str ''baz'') = Inr w \<and> unpack_clireq w = Inr (str ''baz'', []))
   \<and> (\<exists>w. pack_response (str ''baz'') (str ''qux'') = Inr w
            \<and> unpack_response w = Inr (str ''baz'' @ 9 # str ''qux'', []))
   \<and> (\<exists>w. pack_query \<lparr>content = \<lparr>key = str ''baz'', address = (str ''10.0.0.1'', 5000),
                                     sequence = 7\<rparr>, ttl = 3\<rparr> = Inr w
            \<and> unpack_query w
                = Inr (\<lparr>content = \<lparr>key = str ''baz'', address = (str ''10.0.0.1'', 5000),
                                    sequence = 7\<rparr>, ttl = 2\<rparr>, []))"
proof -
  have n: "inet_ntoa [10, 0, 0, 1] = Inr (str ''10.0.0.1'')"
    by (simp add: inet_ntoa_def str_of_octet_def str_def)
  have e: "\<exists>packed_ip. inet_ntoa packed_ip = Inr (str ''10.0.0.1'')" using n by blast
  have v: "valid_content \<lparr>key = str ''baz'', address = (str ''10.0.0.1'', 5000), sequence = 7\<rparr>"
    by (simp add: valid_content_def inet_aton_10_0_0_1 str_def encodable_def MAX_KEY_SIZE_def)
  have k: "encodable (str ''baz'')" "encodable (str ''qux'')" "0 \<notin> set (str ''baz'')"
    "0 \<notin> set (str ''qux'')" "length (str ''baz'') \<le> MAX_KEY_SIZE"
    "length (str ''qux'') \<le> MAX_VALUE_SIZE"
    by (simp_all add: str_def encodable_def MAX_KEY_SIZE_def MAX_VALUE_SIZE_def)
  from codec_round_trip
    [of "str ''baz''" "str ''qux''"
        "\<lparr>content = \<lparr>key = str ''baz'', address = (str ''10.0.0.1'', 5000),
                       sequence = 7\<rparr>, ttl = 3\<rparr>"]
    k v e n
  show ?thesis by simp
qed

section \<open>The sequence number on the wire\<close>

text \<open>
  C9, as stated, fails: the sequence field of the QUERY header is the \<open>I\<close> of
  \<open>'!HH4sHI'\<close>, 32 bits. A servent that receives a QUERY with sequence number \<open>2^16\<close>
  forwards it with that sequence number, in the four bytes \<open>00 01 00 00\<close>.
\<close>

theorem servent_forwards_sequence_65536:
  "servent_step
     \<lparr>database = map_of [], neighbor_addresses = [(str ''10.0.0.3'', 6000)]\<rparr>
     servent_init
     ([0, 2, 0, 3, 10, 0, 0, 1, 19, 136, 0, 1, 0, 0, 98, 97, 122, 0], (str ''10.0.0.2'', 6000))
   = Inr (\<lparr>query_creator = QueryCreator_init,
           queries_seen = {\<lparr>key = str ''baz'', address = (str ''10.0.0.1'', 5000),
                             sequence = 65536\<rparr>}\<rparr>,
          [Log (Received_query \<lparr>content = \<lparr>key = str ''baz'',
                                              address = (str ''10.0.0.1'', 5000),
                                              sequence = 65536\<rparr>, ttl = 2\<rparr>),
           Log (Forwarding_query (str ''10.0.0.3'', 6000)),
           SendTo [0, 2, 0, 2, 10, 0, 0, 1, 19, 136, 0, 1, 0, 0, 98, 97, 122, 0]
             (str ''10.0.0.3'', 6000)])
   \<and> unpack_query_header
       (take QUERY_HEADER_SIZE [0, 2, 0, 2, 10, 0, 0, 1, 19, 136, 0, 1, 0, 0, 98, 97, 122, 0])
     = Inr (2, 2, [10, 0, 0, 1], 5000, 65536)"
  by (simp add: servent_step_def MAX_SERVER_MESSAGE_SIZE_55 extract_message_type_def
      unpack_type_def process_query_def forward_query_def answer_query_def servent_init_def
      pack_query_def inet_aton_10_0_0_1 pack_query_header_def
      pack_H_def pack_I_def MessageType_value_def pack_4s_def MAX_KEY_SIZE_def
      utf8_encode_char_def str_def
      unpack_query_def unpack_query_header_def QUERY_HEADER_SIZE_def
      MESSAGE_TYPE_SIZE_def be_H_def be_I_def MessageType_of_def inet_ntoa_def str_of_octet_def
      utf8_first_def rstrip_nul_def)

text \<open>
  C9, amended. The sequence number is an unsigned 32-bit quantity: every sequence
  number that \<open>pack_query\<close> puts on the wire is less than \<open>2^32\<close>, it occupies the four
  bytes 10 to 13 of the 14-byte QUERY header, and \<open>unpack_query\<close> reads it back.
\<close>

theorem sequence_is_32_bits:
  assumes "pack_query q = Inr w"
  shows "0 \<le> sequence (content q) \<and> sequence (content q) < 2 ^ 32
       \<and> QUERY_HEADER_SIZE = 14
       \<and> (\<exists>s1 s2 s3 s4. take 4 (drop 10 w) = [s1, s2, s3, s4]
             \<and> be_I s1 s2 s3 s4 = sequence (content q))
       \<and> (\<exists>q' logged. unpack_query w = Inr (q', logged)
             \<and> sequence (content q') = sequence (content q))"
proof -
  from pack_query_Inr [OF assms] obtain i1 i2 i3 i4 l1 l2 p1 p2 s1 s2 s3 s4 d where
    s: "be_I s1 s2 s3 s4 = sequence (content q)"
    and w: "w = [0, 2, l1, l2, i1, i2, i3, i4, p1, p2, s1, s2, s3, s4] @ d"
    by blast
  from be_I_range [of s1 s2 s3 s4] s
  have "0 \<le> sequence (content q) \<and> sequence (content q) < 2 ^ 32" by simp
  moreover have "QUERY_HEADER_SIZE = 14"
    by (simp add: QUERY_HEADER_SIZE_def MESSAGE_TYPE_SIZE_def)
  moreover have "take 4 (drop 10 w) = [s1, s2, s3, s4]" unfolding w by simp
  moreover note s unpack_pack_query_ttl [OF assms]
  ultimately show ?thesis by auto
qed

theorem sequence_is_32_bits_witness:
  "pack_query \<lparr>content = \<lparr>key = str ''baz'', address = (str ''10.0.0.1'', 5000),
                           sequence = 65536\<rparr>, ttl = 2\<rparr>
     = Inr [0, 2, 0, 2, 10, 0, 0, 1, 19, 136, 0, 1, 0, 0, 98, 97, 122, 0]
   \<and> (\<exists>s1 s2 s3 s4.
         take 4 (drop 10 [0, 2, 0, 2, 10, 0, 0, 1, 19, 136, 0, 1, 0, 0, 98, 97, 122, 0])
           = [s1, s2, s3, s4]
         \<and> be_I s1 s2 s3 s4 = 65536)
   \<and> (\<exists>q' logged.
         unpack_query [0, 2, 0, 2, 10, 0, 0, 1, 19, 136, 0, 1, 0, 0, 98, 97, 122, 0]
           = Inr (q', logged)
         \<and> sequence (content q') = 65536)"
  using sequence_is_32_bits
    [of "\<lparr>content = \<lparr>key = str ''baz'', address = (str ''10.0.0.1'', 5000),
                       sequence = 65536\<rparr>, ttl = 2\<rparr>"
        "[0, 2, 0, 2, 10, 0, 0, 1, 19, 136, 0, 1, 0, 0, 98, 97, 122, 0]"]
  by (simp add: pack_query_def inet_aton_10_0_0_1 pack_query_header_def
      pack_H_def pack_I_def MessageType_value_def pack_4s_def MAX_KEY_SIZE_def
      utf8_encode_char_def str_def QUERY_HEADER_SIZE_def MESSAGE_TYPE_SIZE_def)

section \<open>Facts about the servent\<close>

lemma sent_append: "sent (xs @ ys) = sent xs @ sent ys"
  by (induction xs rule: sent.induct) simp_all

lemma sent_map_Log [simp]: "sent (map Log logged) = []"
  by (induction logged) simp_all

lemma sent_forward:
  "sent (concat (map (\<lambda>neighbor_address.
           if neighbor_address \<noteq> message_origin
           then [Log (Forwarding_query neighbor_address), SendTo w neighbor_address]
           else []) ns))
   = map (Pair w) (filter (\<lambda>a. a \<noteq> message_origin) ns)"
  by (induction ns) simp_all


lemma forward_query_no_hops:
  "ttl q \<le> 0 \<Longrightarrow> forward_query cfg q message_origin = Inr []"
  by (simp add: forward_query_def)

lemma forward_query_sent:
  assumes "pack_query q = Inr w" and "0 < ttl q"
  shows "\<exists>es. forward_query cfg q message_origin = Inr es
           \<and> sent es = map (Pair w) (filter (\<lambda>a. a \<noteq> message_origin) (neighbor_addresses cfg))"
proof (cases "neighbor_addresses cfg = []")
  case True
  then show ?thesis by (simp add: forward_query_def)
next
  case False
  then show ?thesis using assms by (simp add: forward_query_def sent_forward)
qed


lemma answer_query_found:
  assumes "database cfg (key (content q)) = Some v"
    and "encodable (take MAX_KEY_SIZE (key (content q)))"
    and "encodable (take MAX_VALUE_SIZE v)"
  shows "\<exists>response. pack_response (key (content q)) v = Inr response
           \<and> extract_message_type response = Inr RESPONSE
           \<and> unpack_response response
               = Inr (rstrip_nul (take MAX_KEY_SIZE (key (content q))
                                   @ 9 # take MAX_VALUE_SIZE v), [])
           \<and> answer_query cfg q
               = Inr [Log (Sending_response (address (content q))),
                      SendTo response (address (content q))]"
  using unpack_pack_response [OF assms(2,3)] assms(1) by (auto simp: answer_query_def)

lemma process_query_fresh:
  assumes "content q \<notin> queries_seen st"
  shows "process_query cfg st q message_origin
         = and_then (forward_query cfg q message_origin) (\<lambda>forwarded.
           and_then (answer_query cfg q) (\<lambda>answered.
           Inr (st\<lparr>queries_seen := insert (content q) (queries_seen st)\<rparr>,
                forwarded @ answered)))"
  using assms by (simp add: process_query_def)

lemma process_query_seen:
  assumes "process_query cfg st q message_origin = Inr (st', es)"
  shows "content q \<in> queries_seen st'"
  using assms by (auto simp: process_query_def and_then_eq_Inr split: if_splits)

lemma servent_step_QUERY:
  assumes "extract_message_type (take MAX_SERVER_MESSAGE_SIZE d) = Inr QUERY"
  shows "servent_step cfg st (d, message_origin)
         = and_then (unpack_query (take MAX_SERVER_MESSAGE_SIZE d)) (\<lambda>(query, logged).
           and_then (process_query cfg st query message_origin) (\<lambda>(st', effects).
           Inr (st', map Log logged @ Log (Received_query query) # effects)))"
  using assms by (simp add: servent_step_def)


section \<open>Forwarding\<close>

text \<open>
  C7. When a query is forwarded (its time to live is positive and it can be packed),
  the packed query goes, in the order of the neighbour list, to every neighbour other than
  the address the message came from: the addresses it is sent to are exactly the
  neighbours minus that sender, also when the sender is itself a neighbour.
\<close>

theorem forward_excludes_sender:
  assumes "0 < ttl q" and "ttl q < 2 ^ 16" and "valid_content (content q)"
  shows "\<exists>w es. pack_query q = Inr w \<and> forward_query cfg q message_origin = Inr es
           \<and> sent es = map (Pair w)
                          (filter (\<lambda>a. a \<noteq> message_origin) (neighbor_addresses cfg))
           \<and> snd ` set (sent es) = set (neighbor_addresses cfg) - {message_origin}"
proof -
  from assms pack_query_succeeds [of q] obtain w where w: "pack_query q = Inr w" by auto
  from forward_query_sent [OF w assms(1), of cfg message_origin] obtain es where
    es: "forward_query cfg q message_origin = Inr es"
      "sent es = map (Pair w) (filter (\<lambda>a. a \<noteq> message_origin) (neighbor_addresses cfg))"
    by blast
  have "snd ` set (sent es) = set (neighbor_addresses cfg) - {message_origin}"
    unfolding es(2) by (auto simp: image_iff)
  with w es show ?thesis by blast
qed

theorem forward_excludes_sender_witness:
  "valid_content \<lparr>key = str ''baz'', address = (str ''10.0.0.1'', 5000), sequence = 0\<rparr>
   \<and> (\<exists>w es.
         pack_query \<lparr>content = \<lparr>key = str ''baz'', address = (str ''10.0.0.1'', 5000),
                                 sequence = 0\<rparr>, ttl = 2\<rparr> = Inr w
       \<and> forward_query
           \<lparr>database = map_of [],
             neighbor_addresses = [(str ''10.0.0.2'', 6000), (str ''10.0.0.3'', 6000)]\<rparr>
           \<lparr>content = \<lparr>key = str ''baz'', address = (str ''10.0.0.1'', 5000),
                         sequence = 0\<rparr>, ttl = 2\<rparr>
           (str ''10.0.0.2'', 6000) = Inr es
       \<and> sent es = [(w, (str ''10.0.0.3'', 6000))]
       \<and> snd ` set (sent es) = {(str ''10.0.0.3'', 6000)})"
  using forward_excludes_sender
    [of "\<lparr>content = \<lparr>key = str ''baz'', address = (str ''10.0.0.1'', 5000),
                       sequence = 0\<rparr>, ttl = 2\<rparr>"
        "\<lparr>database = map_of [],
          neighbor_addresses = [(str ''10.0.0.2'', 6000), (str ''10.0.0.3'', 6000)]\<rparr>"
        "(str ''10.0.0.2'', 6000)"]
  by (simp add: valid_content_def inet_aton_10_0_0_1 str_def encodable_def
      MAX_KEY_SIZE_def)

section \<open>The local answer\<close>

text \<open>
  C5. The time to live gates forwarding only. A query that is no duplicate, whose key
  is in the database and whose time to live is 0 or less is sent to no neighbour, and the
  response is still sent to the address in the query; and whatever the time to live, if
  forwarding returns, the response follows what was forwarded. The answer does not look
  at the time to live at all.
\<close>

theorem ttl_gates_forwarding_only:
  assumes "content q \<notin> queries_seen st"
    and "database cfg (key (content q)) = Some v"
    and "encodable (take MAX_KEY_SIZE (key (content q)))"
    and "encodable (take MAX_VALUE_SIZE v)"
  shows "\<exists>response. pack_response (key (content q)) v = Inr response
         \<and> (ttl q \<le> 0 \<longrightarrow>
              forward_query cfg q message_origin = Inr []
            \<and> process_query cfg st q message_origin
              = Inr (st\<lparr>queries_seen := insert (content q) (queries_seen st)\<rparr>,
                     [Log (Sending_response (address (content q))),
                      SendTo response (address (content q))]))
         \<and> (\<forall>forwarded. forward_query cfg q message_origin = Inr forwarded \<longrightarrow>
              process_query cfg st q message_origin
              = Inr (st\<lparr>queries_seen := insert (content q) (queries_seen st)\<rparr>,
                     forwarded @ [Log (Sending_response (address (content q))),
                                  SendTo response (address (content q))]))
         \<and> (\<forall>t. answer_query cfg (q\<lparr>ttl := t\<rparr>) = answer_query cfg q)"
proof -
  from answer_query_found [OF assms(2-4)] obtain response where
    r: "pack_response (key (content q)) v = Inr response"
    and a: "answer_query cfg q = Inr [Log (Sending_response (address (content q))),
                                      SendTo response (address (content q))]"
    by blast
  have "\<forall>t. answer_query cfg (q\<lparr>ttl := t\<rparr>) = answer_query cfg q"
    by (simp add: answer_query_def split: option.splits)
  with r a process_query_fresh [OF assms(1), of cfg message_origin]
    forward_query_no_hops [of q cfg message_origin]
  show ?thesis by auto
qed

theorem ttl_gates_forwarding_only_witness:
  "map_of [(str ''baz'', str ''qux'')] (str ''baz'') = Some (str ''qux'')
   \<and> encodable (take MAX_KEY_SIZE (str ''baz''))
   \<and> encodable (take MAX_VALUE_SIZE (str ''qux''))
   \<and> (\<exists>response. pack_response (str ''baz'') (str ''qux'') = Inr response
     \<and> process_query
         \<lparr>database = map_of [(str ''baz'', str ''qux'')],
           neighbor_addresses = [(str ''10.0.0.3'', 6000)]\<rparr>
         servent_init
         \<lparr>content = \<lparr>key = str ''baz'', address = (str ''10.0.0.1'', 5000),
                       sequence = 0\<rparr>, ttl = 0\<rparr>
         (str ''10.0.0.2'', 6000)
       = Inr (\<lparr>query_creator = QueryCreator_init,
               queries_seen = {\<lparr>key = str ''baz'', address = (str ''10.0.0.1'', 5000),
                                 sequence = 0\<rparr>}\<rparr>,
              [Log (Sending_response (str ''10.0.0.1'', 5000)),
               SendTo response (str ''10.0.0.1'', 5000)]))"
  using ttl_gates_forwarding_only
    [of "\<lparr>content = \<lparr>key = str ''baz'', address = (str ''10.0.0.1'', 5000),
                       sequence = 0\<rparr>, ttl = 0\<rparr>"
        servent_init
        "\<lparr>database = map_of [(str ''baz'', str ''qux'')],
          neighbor_addresses = [(str ''10.0.0.3'', 6000)]\<rparr>"
        "str ''qux''" "(str ''10.0.0.2'', 6000)"]
  by (auto simp: servent_init_def str_def encodable_def MAX_KEY_SIZE_def MAX_VALUE_SIZE_def)



section \<open>Duplicates\<close>

text \<open>
  C6. When an iteration has processed a QUERY datagram, the same datagram fed again,
  at once or at any later time (the set of seen queries only grows), from whatever
  sender, is discarded: the iteration returns, sends nothing and leaves the state as it
  was. So of two occurrences only the first can forward and answer.
\<close>

theorem duplicate_query_is_discarded:
  assumes "extract_message_type (take MAX_SERVER_MESSAGE_SIZE d) = Inr QUERY"
    and "servent_step cfg st (d, message_origin) = Inr (st1, es1)"
    and "queries_seen st1 \<subseteq> queries_seen st2"
  shows "\<exists>es2. servent_step cfg st2 (d, message_origin') = Inr (st2, es2) \<and> sent es2 = []"
proof -
  from assms(2) obtain q logged st' es where
    u: "unpack_query (take MAX_SERVER_MESSAGE_SIZE d) = Inr (q, logged)"
    and p: "process_query cfg st q message_origin = Inr (st', es)" and st1: "st1 = st'"
    unfolding servent_step_QUERY [OF assms(1)] by (auto simp: and_then_eq_Inr)
  from process_query_seen [OF p] st1 assms(3) have "content q \<in> queries_seen st2" by auto
  then have "process_query cfg st2 q message_origin'
             = Inr (st2, [Log (Query_already_seen q)])"
    by (simp add: process_query_def)
  then have "servent_step cfg st2 (d, message_origin')
             = Inr (st2, map Log logged @ [Log (Received_query q), Log (Query_already_seen q)])"
    unfolding servent_step_QUERY [OF assms(1)] by (simp add: u)
  then show ?thesis by (simp add: sent_append)
qed

theorem duplicate_query_is_discarded_witness:
  "servent_step
     \<lparr>database = map_of [(str ''baz'', str ''qux'')],
       neighbor_addresses = [(str ''10.0.0.3'', 6000)]\<rparr>
     servent_init
     ([0, 2, 0, 3, 10, 0, 0, 1, 19, 136, 0, 0, 0, 0, 98, 97, 122, 0], (str ''10.0.0.2'', 6000))
   = Inr (\<lparr>query_creator = QueryCreator_init,
           queries_seen = {\<lparr>key = str ''baz'', address = (str ''10.0.0.1'', 5000),
                             sequence = 0\<rparr>}\<rparr>,
          [Log (Received_query \<lparr>content = \<lparr>key = str ''baz'',
                                             address = (str ''10.0.0.1'', 5000),
                                             sequence = 0\<rparr>, ttl = 2\<rparr>),
           Log (Forwarding_query (str ''10.0.0.3'', 6000)),
           SendTo [0, 2, 0, 2, 10, 0, 0, 1, 19, 136, 0, 0, 0, 0, 98, 97, 122, 0]
             (str ''10.0.0.3'', 6000),
           Log (Sending_response (str ''10.0.0.1'', 5000)),
           SendTo [0, 3, 98, 97, 122, 9, 113, 117, 120, 0] (str ''10.0.0.1'', 5000)])
   \<and> (\<exists>es2. servent_step
       \<lparr>database = map_of [(str ''baz'', str ''qux'')],
         neighbor_addresses = [(str ''10.0.0.3'', 6000)]\<rparr>
       \<lparr>query_creator = QueryCreator_init,
         queries_seen = {\<lparr>key = str ''baz'', address = (str ''10.0.0.1'', 5000),
                           sequence = 0\<rparr>}\<rparr>
       ([0, 2, 0, 3, 10, 0, 0, 1, 19, 136, 0, 0, 0, 0, 98, 97, 122, 0],
        (str ''10.0.0.2'', 6000))
     = Inr (\<lparr>query_creator = QueryCreator_init,
             queries_seen = {\<lparr>key = str ''baz'', address = (str ''10.0.0.1'', 5000),
                               sequence = 0\<rparr>}\<rparr>, es2)
     \<and> sent es2 = [])"
  using duplicate_query_is_discarded
    [of "[0, 2, 0, 3, 10, 0, 0, 1, 19, 136, 0, 0, 0, 0, 98, 97, 122, 0]"
        "\<lparr>database = map_of [(str ''baz'', str ''qux'')],
          neighbor_addresses = [(str ''10.0.0.3'', 6000)]\<rparr>"
        servent_init
        "(str ''10.0.0.2'', 6000)"
        "\<lparr>query_creator = QueryCreator_init,
          queries_seen = {\<lparr>key = str ''baz'', address = (str ''10.0.0.1'', 5000),
                            sequence = 0\<rparr>}\<rparr>"
        "[Log (Received_query \<lparr>content = \<lparr>key = str ''baz'',
                                           address = (str ''10.0.0.1'', 5000),
                                           sequence = 0\<rparr>, ttl = 2\<rparr>),
          Log (Forwarding_query (str ''10.0.0.3'', 6000)),
          SendTo [0, 2, 0, 2, 10, 0, 0, 1, 19, 136, 0, 0, 0, 0, 98, 97, 122, 0]
            (str ''10.0.0.3'', 6000),
          Log (Sending_response (str ''10.0.0.1'', 5000)),
          SendTo [0, 3, 98, 97, 122, 9, 113, 117, 120, 0] (str ''10.0.0.1'', 5000)]"
        "\<lparr>query_creator = QueryCreator_init,
          queries_seen = {\<lparr>key = str ''baz'', address = (str ''10.0.0.1'', 5000),
                            sequence = 0\<rparr>}\<rparr>"
        "(str ''10.0.0.2'', 6000)"]
  by (simp add: servent_step_def MAX_SERVER_MESSAGE_SIZE_55 extract_message_type_def
      unpack_type_def process_query_def forward_query_def answer_query_def servent_init_def
      pack_query_def inet_aton_10_0_0_1 pack_query_header_def
      pack_H_def pack_I_def MessageType_value_def pack_4s_def MAX_KEY_SIZE_def
      MAX_VALUE_SIZE_def pack_response_def pack_type_def
      utf8_encode_char_def str_def
      unpack_query_def unpack_query_header_def QUERY_HEADER_SIZE_def
      MESSAGE_TYPE_SIZE_def be_H_def be_I_def MessageType_of_def inet_ntoa_def str_of_octet_def
      utf8_first_def rstrip_nul_def)

section \<open>Where the datagrams of an iteration come from\<close>





section \<open>The time to live of a new query\<close>




section \<open>What the loop adds to the set of seen queries\<close>




section \<open>Sequence numbers and the set of seen queries\<close>




end
